theory Spec2Isabelle
  imports Main "HOL-Library.Char_ord" "HOL-Library.List_Lexorder" "HOL-Library.AList"
    "HOL-Library.Multiset"
begin

section \<open>Data model\<close>

text \<open>
  Byte strings and text are both lists of 8-bit characters.  Documents read from YAML
  (the manifest \<^verbatim>\<open>project.yml\<close>, the lockfile \<^verbatim>\<open>project.lock\<close>)
  and the dictionaries the code builds are values of \<open>json\<close>; a mapping is an association
  list in insertion order, looked up with \<open>map_of\<close>.
\<close>

type_synonym bytes = "char list"

datatype json =
    JNull
  | JBool bool
  | JNum int
  | JStr string
  | JList "json list"
  | JDict "(string \<times> json) list"

text \<open>
  Every way the code leaves a function other than by \<^verbatim>\<open>return\<close>:
  \<^verbatim>\<open>sys.exit(n)\<close> and wasabi's \<^verbatim>\<open>msg.fail(..., exits=n)\<close> are
  \<open>SystemExit n\<close>, the others are the Python exceptions of the same name.
\<close>

datatype error =
    SystemExit int
  | KeyError string
  | TypeError
  | AttributeError
  | UnboundLocalError
  | RecursionError
  | FileNotFoundError
  | NoSuchOption string
  | SubprocessError string int
  | ValueError

text \<open>
  What a path names on disk: a regular file with its content, a directory with its
  entries in the order the operating system lists them, or something that exists and is
  neither (a socket, a device).  A path that names nothing is \<open>None\<close> in the
  lookup \<open>string \<Rightarrow> node option\<close>, which takes a path as the manifest writes it,
  relative to the project directory.
\<close>

datatype node = File bytes | Dir "(string \<times> node) list" | Special

type_synonym files = "string \<Rightarrow> node option"

text \<open>
  A command of the manifest after schema validation, read the way the code reads the
  dictionary: \<^verbatim>\<open>command["script"]\<close> raises when the key is absent (the schema
  gives it a default, but the dictionary itself is never filled in), so \<open>script\<close> is an
  option; \<^verbatim>\<open>command.get("deps", [])\<close> and its like cannot tell an absent key
  from an empty list, so those are lists.
\<close>

record command =
  name :: string
  help_text :: "string option"
  script :: "string list option"
  deps :: "string list"
  outputs :: "string list"
  outputs_no_cache :: "string list"
  no_skip :: bool

definition PROJECT_FILE :: string where
  "PROJECT_FILE = ''project.yml''"

definition PROJECT_LOCK :: string where
  "PROJECT_LOCK = ''project.lock''"

section \<open>Checksums\<close>

fun is_file :: "node \<Rightarrow> bool" where
  "is_file (File b) = True"
| "is_file _ = False"

fun is_dir :: "node \<Rightarrow> bool" where
  "is_dir (Dir cs) = True"
| "is_dir _ = False"

fun read_bytes :: "node \<Rightarrow> bytes" where
  "read_bytes (File b) = b"
| "read_bytes _ = []"

text \<open>
  \<^verbatim>\<open>path.rglob("*")\<close>: every entry below a directory, at any depth, with its path
  as the list of its components below the directory, in the order of the listing.
\<close>

fun rglob :: "string list \<Rightarrow> node \<Rightarrow> (string list \<times> node) list" where
  "rglob p (Dir cs) = concat (map (\<lambda>(n, c). (p @ [n], c) # rglob (p @ [n]) c) cs)"
| "rglob p (File b) = []"
| "rglob p Special = []"

text \<open>
  \<^verbatim>\<open>sorted(fp for fp in path.rglob("*") if fp.is_file())\<close>: pathlib compares paths
  by their lists of components, so the order is the lexicographic order on \<open>string list\<close>.
\<close>

definition contained_files :: "node \<Rightarrow> (string list \<times> node) list" where
  "contained_files d = filter (\<lambda>pc. is_file (snd pc)) (rglob [] d)"

definition sorted_files :: "node \<Rightarrow> (string list \<times> node) list" where
  "sorted_files d = sort_key fst (contained_files d)"

text \<open>
  The bytes a directory's checksum digests: \<^verbatim>\<open>dir_checksum.update(sub_file.read_bytes())\<close>
  for each file in turn, which hashlib defines as digesting the concatenation.
\<close>

definition dir_bytes :: "node \<Rightarrow> bytes" where
  "dir_bytes d = concat (map (\<lambda>pc. read_bytes (snd pc)) (sorted_files d))"

text \<open>
  \<^verbatim>\<open>get_checksum(path)\<close>.  The digest \<^verbatim>\<open>hashlib.md5(...).hexdigest()\<close> is
  the parameter \<open>md5\<close>.
\<close>

definition get_checksum :: "(bytes \<Rightarrow> string) \<Rightarrow> files \<Rightarrow> string \<Rightarrow> error + string" where
  "get_checksum md5 fs path =
     (case fs path of
        None \<Rightarrow> Inl (SystemExit 1)
      | Some Special \<Rightarrow> Inl (SystemExit 1)
      | Some (File b) \<Rightarrow> Inr (md5 b)
      | Some (Dir cs) \<Rightarrow> Inr (md5 (dir_bytes (Dir cs))))"

section \<open>Lock entries\<close>

definition fileinfo :: "string \<Rightarrow> string option \<Rightarrow> json" where
  "fileinfo path digest =
     JDict [(''path'', JStr path),
            (''md5'', case digest of None \<Rightarrow> JNull | Some d \<Rightarrow> JStr d)]"

fun get_fileinfo :: "(bytes \<Rightarrow> string) \<Rightarrow> files \<Rightarrow> string list \<Rightarrow> error + json list" where
  "get_fileinfo md5 fs [] = Inr []"
| "get_fileinfo md5 fs (path # paths) =
     (case (if fs path \<noteq> None then map_sum id Some (get_checksum md5 fs path) else Inr None) of
        Inl e \<Rightarrow> Inl e
      | Inr digest \<Rightarrow>
          (case get_fileinfo md5 fs paths of
             Inl e \<Rightarrow> Inl e
           | Inr data \<Rightarrow> Inr (fileinfo path digest # data)))"

definition get_lock_entry :: "(bytes \<Rightarrow> string) \<Rightarrow> files \<Rightarrow> command \<Rightarrow> error + json" where
  "get_lock_entry md5 fs c =
     (case get_fileinfo md5 fs (deps c) of
        Inl e \<Rightarrow> Inl e
      | Inr ds \<Rightarrow>
     (case get_fileinfo md5 fs (outputs c) of
        Inl e \<Rightarrow> Inl e
      | Inr outs \<Rightarrow>
     (case get_fileinfo md5 fs (outputs_no_cache c) of
        Inl e \<Rightarrow> Inl e
      | Inr outs_nc \<Rightarrow>
     (case script c of
        None \<Rightarrow> Inl (KeyError ''script'')
      | Some sc \<Rightarrow>
          Inr (JDict [(''cmd'', JStr (''project run '' @ name c)),
                      (''script'', JList (map JStr sc)),
                      (''deps'', JList ds),
                      (''outs'', JList (outs @ outs_nc))])))))"

text \<open>
  A path the checksum can be taken of, or that is absent: the paths on which
  \<open>get_fileinfo\<close> does not exit.
\<close>

definition hashable :: "files \<Rightarrow> string \<Rightarrow> bool" where
  "hashable fs path = (fs path \<noteq> Some Special)"

definition digest_of :: "(bytes \<Rightarrow> string) \<Rightarrow> files \<Rightarrow> string \<Rightarrow> string option" where
  "digest_of md5 fs path =
     (case fs path of
        Some (File b) \<Rightarrow> Some (md5 b)
      | Some (Dir cs) \<Rightarrow> Some (md5 (dir_bytes (Dir cs)))
      | _ \<Rightarrow> None)"

section \<open>What the code calls and does not define\<close>

text \<open>
  The project directory on disk: the files below it, the manifest as
  \<^verbatim>\<open>srsly.read_yaml\<close> parses it (\<open>None\<close> when the file is missing or is not
  YAML: both raise \<^verbatim>\<open>ValueError\<close> there) and the lockfile, a mapping from command
  names to entries (\<open>None\<close> when there is no lockfile).
\<close>

record disk =
  files :: files
  manifest :: "json option"
  lockfile :: "(string \<times> json) list option"

text \<open>
  The library functions the code calls are parameters of the model:
  \<^item> \<open>md5\<close>: \<^verbatim>\<open>hashlib.md5(b).hexdigest()\<close>;
  \<^item> \<open>json_dumps\<close>: \<^verbatim>\<open>srsly.json_dumps(data).encode("utf8")\<close> of data whose keys are
    already in order;
  \<^item> \<open>json_loads\<close>: \<^verbatim>\<open>srsly.json_loads\<close>, \<open>None\<close> for a \<^verbatim>\<open>ValueError\<close>;
  \<^item> \<open>split_arg_string\<close>: click's splitting of the override string into tokens;
  \<^item> \<open>split_command\<close>: \<^verbatim>\<open>shlex.split\<close>, \<open>None\<close> for a \<^verbatim>\<open>ValueError\<close>;
  \<^item> \<open>sys_executable\<close>: \<^verbatim>\<open>sys.executable\<close>;
  \<^item> \<open>resolve\<close>: \<^verbatim>\<open>Path(path).resolve()\<close>, from the working directory and the path;
  \<^item> \<open>subprocess_run\<close>: the child process, from the working directory, its arguments and
    the disk, to its return code and the disk it leaves; \<open>None\<close> when the program is
    not found;
  \<^item> \<open>substitute_project_variables\<close>: the interpolation of the manifest by confection,
    from the manifest and the overrides.
\<close>

record runtime =
  md5 :: "bytes \<Rightarrow> string"
  json_dumps :: "json \<Rightarrow> bytes"
  json_loads :: "string \<Rightarrow> json option"
  split_arg_string :: "string \<Rightarrow> string list"
  split_command :: "string \<Rightarrow> string list option"
  sys_executable :: string
  resolve :: "string \<Rightarrow> string \<Rightarrow> string"
  subprocess_run :: "string \<Rightarrow> string list \<Rightarrow> disk \<Rightarrow> (int \<times> disk) option"
  substitute_project_variables :: "json \<Rightarrow> (string \<times> json) list \<Rightarrow> error + json"

section \<open>The rerun decision\<close>

text \<open>
  \<^verbatim>\<open>srsly.json_dumps(data, sort_keys=True)\<close>: the keys of every mapping in order, then
  the encoding.
\<close>

fun sort_keys :: "json \<Rightarrow> json" where
  "sort_keys (JList xs) = JList (map sort_keys xs)"
| "sort_keys (JDict kvs) = JDict (sort_key fst (map (\<lambda>(k, v). (k, sort_keys v)) kvs))"
| "sort_keys JNull = JNull"
| "sort_keys (JBool b) = JBool b"
| "sort_keys (JNum n) = JNum n"
| "sort_keys (JStr s) = JStr s"

definition get_hash :: "runtime \<Rightarrow> json \<Rightarrow> string" where
  "get_hash rt data = md5 rt (json_dumps rt (sort_keys data))"

text \<open>Python's truth value of a document, as \<^verbatim>\<open>not entry.get("outs", [])\<close> takes it.\<close>

fun truthy :: "json \<Rightarrow> bool" where
  "truthy JNull = False"
| "truthy (JBool b) = b"
| "truthy (JNum n) = (n \<noteq> 0)"
| "truthy (JStr s) = (s \<noteq> [])"
| "truthy (JList xs) = (xs \<noteq> [])"
| "truthy (JDict kvs) = (kvs \<noteq> [])"

text \<open>\<^verbatim>\<open>entry.get(key, default)\<close>: only a mapping has the method.\<close>

fun py_get :: "json \<Rightarrow> string \<Rightarrow> json \<Rightarrow> error + json" where
  "py_get (JDict kvs) key dflt = Inr (case map_of kvs key of None \<Rightarrow> dflt | Some v \<Rightarrow> v)"
| "py_get _ key dflt = Inl AttributeError"

definition check_rerun :: "runtime \<Rightarrow> disk \<Rightarrow> command \<Rightarrow> error + bool" where
  "check_rerun rt d c =
     (if no_skip c then Inr True
      else case lockfile d of
        None \<Rightarrow> Inr True
      | Some data \<Rightarrow>
          (case map_of data (name c) of
             None \<Rightarrow> Inr True
           | Some entry \<Rightarrow>
               (case py_get entry ''outs'' (JList []) of
                  Inl e \<Rightarrow> Inl e
                | Inr outs \<Rightarrow>
                    if \<not> truthy outs then Inr True
                    else (case get_lock_entry (md5 rt) (files d) c of
                            Inl e \<Rightarrow> Inl e
                          | Inr lock_entry \<Rightarrow>
                              Inr (get_hash rt lock_entry \<noteq> get_hash rt entry)))))"

text \<open>
  \<^verbatim>\<open>update_lockfile\<close>: an empty lockfile is written first when there is none; the
  entry is computed next, and an error there leaves the empty lockfile behind.
\<close>

definition update_lockfile :: "runtime \<Rightarrow> disk \<Rightarrow> command \<Rightarrow> (error \<times> disk) + disk" where
  "update_lockfile rt d c =
     (let d1 = (case lockfile d of None \<Rightarrow> d\<lparr>lockfile := Some []\<rparr> | Some data \<Rightarrow> d);
          data = (case lockfile d of None \<Rightarrow> [] | Some data \<Rightarrow> data)
      in case get_lock_entry (md5 rt) (files d1) c of
           Inl e \<Rightarrow> Inl (e, d1)
         | Inr entry \<Rightarrow> Inr (d1\<lparr>lockfile := Some (AList.update (name c) entry data)\<rparr>))"




section \<open>Schema validation\<close>

text \<open>
  \<^verbatim>\<open>schema.py\<close> declares two pydantic models; what pydantic (version 1, whose
  \<^verbatim>\<open>class Config\<close> the file uses) does with such a declaration is written out here.
  An error is a location (keys and list positions) and a kind.
\<close>

datatype loc_item = Key string | Idx nat

datatype verr =
    Missing | ExtraForbidden | NoneNotAllowed | NotStr | NotBool | NotList | NotDict
  | KeywordsNotStr

type_synonym verrs = "(loc_item list \<times> verr) list"

type_synonym validator = "loc_item list \<Rightarrow> json \<Rightarrow> verrs"

text \<open>\<^verbatim>\<open>StrictStr\<close>: a string and nothing else.\<close>

fun StrictStr :: validator where
  "StrictStr loc (JStr s) = []"
| "StrictStr loc JNull = [(loc, NoneNotAllowed)]"
| "StrictStr loc _ = [(loc, NotStr)]"

text \<open>\<^verbatim>\<open>str\<close>: a string, or a number or truth value that pydantic turns into one.\<close>

fun lax_str :: validator where
  "lax_str loc (JStr s) = []"
| "lax_str loc (JNum n) = []"
| "lax_str loc (JBool b) = []"
| "lax_str loc JNull = [(loc, NoneNotAllowed)]"
| "lax_str loc _ = [(loc, NotStr)]"

definition lower :: "string \<Rightarrow> string" where
  "lower s = map (\<lambda>c. if CHR ''A'' \<le> c \<and> c \<le> CHR ''Z'' then char_of (of_char c + (32::nat)) else c) s"

text \<open>\<^verbatim>\<open>bool\<close>: a truth value, 0 or 1, or one of the words pydantic reads as one.\<close>

fun lax_bool :: validator where
  "lax_bool loc (JBool b) = []"
| "lax_bool loc (JNum n) = (if n = 0 \<or> n = 1 then [] else [(loc, NotBool)])"
| "lax_bool loc (JStr s) =
     (if lower s \<in> set [''0'', ''off'', ''f'', ''false'', ''n'', ''no'',
                         ''1'', ''on'', ''t'', ''true'', ''y'', ''yes'']
      then [] else [(loc, NotBool)])"
| "lax_bool loc JNull = [(loc, NoneNotAllowed)]"
| "lax_bool loc _ = [(loc, NotBool)]"

text \<open>\<^verbatim>\<open>Any\<close> accepts every value, \<^verbatim>\<open>Optional[T]\<close> accepts null besides.\<close>

definition Any :: validator where
  "Any loc v = []"

definition Optional :: "validator \<Rightarrow> validator" where
  "Optional inner loc v = (if v = JNull then [] else inner loc v)"

fun List_of :: "validator \<Rightarrow> validator" where
  "List_of inner loc (JList xs) =
     concat (map (\<lambda>(i, x). inner (loc @ [Idx i]) x) (enumerate 0 xs))"
| "List_of inner loc JNull = [(loc, NoneNotAllowed)]"
| "List_of inner loc _ = [(loc, NotList)]"

text \<open>
  Where pydantic wants a mapping and the value is none, it tries \<^verbatim>\<open>dict(value)\<close>
  before it gives up, and Python makes a mapping of a sequence of pairs.  A pair is
  whatever iterates to exactly two items (a list of two, a string of two characters, a
  mapping of two keys, which iterates to its keys) and has a first item that can be
  hashed; a later pair replaces the value of an equal key, and \<^verbatim>\<open>True\<close> and
  \<^verbatim>\<open>1\<close> are equal keys, as are \<^verbatim>\<open>False\<close> and \<^verbatim>\<open>0\<close>.  The empty string
  is an empty sequence, every other string a sequence of strings of one character.  The
  keys of the result need not be strings.
\<close>

fun unhashable :: "json \<Rightarrow> bool" where
  "unhashable (JList xs) = True"
| "unhashable (JDict kvs) = True"
| "unhashable _ = False"

fun pair_of :: "json \<Rightarrow> (json \<times> json) option" where
  "pair_of (JList [k, v]) = (if unhashable k then None else Some (k, v))"
| "pair_of (JStr [a, b]) = Some (JStr [a], JStr [b])"
| "pair_of (JDict [(a, x), (b, y)]) = Some (JStr a, JStr b)"
| "pair_of _ = None"

fun key_eq :: "json \<Rightarrow> json \<Rightarrow> bool" where
  "key_eq (JBool b) (JNum n) = (n = (if b then 1 else 0))"
| "key_eq (JNum n) (JBool b) = (n = (if b then 1 else 0))"
| "key_eq k k' = (k = k')"

fun dict_set :: "(json \<times> json) list \<Rightarrow> json \<Rightarrow> json \<Rightarrow> (json \<times> json) list" where
  "dict_set [] k v = [(k, v)]"
| "dict_set ((k', v') # d) k v =
     (if key_eq k' k then (k', v) # d else (k', v') # dict_set d k v)"

fun dict_of_pairs :: "json list \<Rightarrow> (json \<times> json) list \<Rightarrow> (json \<times> json) list option" where
  "dict_of_pairs [] d = Some d"
| "dict_of_pairs (x # xs) d =
     (case pair_of x of
        None \<Rightarrow> None
      | Some (k, v) \<Rightarrow> dict_of_pairs xs (dict_set d k v))"

fun py_dict :: "json \<Rightarrow> (json \<times> json) list option" where
  "py_dict (JDict kvs) = Some (map (\<lambda>(k, v). (JStr k, v)) kvs)"
| "py_dict (JList xs) = dict_of_pairs xs []"
| "py_dict (JStr s) = (if s = [] then Some [] else None)"
| "py_dict _ = None"

text \<open>
  \<^verbatim>\<open>Dict[StrictStr, T]\<close>, the type of the three mappings of the schema: a mapping is
  taken as it is, any other value through \<^verbatim>\<open>dict(value)\<close>; a key that is no string
  is an error at \<^verbatim>\<open>__key__\<close>, and the value under it is not looked at.
\<close>

definition dict_items :: "validator \<Rightarrow> loc_item list \<Rightarrow> (json \<times> json) list \<Rightarrow> verrs" where
  "dict_items inner loc d =
     concat (map (\<lambda>(k, v). case k of
                              JStr s \<Rightarrow> inner (loc @ [Key s]) v
                            | _ \<Rightarrow> StrictStr (loc @ [Key ''__key__'']) k) d)"

fun Dict_of :: "validator \<Rightarrow> validator" where
  "Dict_of inner loc (JDict kvs) =
     concat (map (\<lambda>(k, v). inner (loc @ [Key k]) v) kvs)"
| "Dict_of inner loc JNull = [(loc, NoneNotAllowed)]"
| "Dict_of inner loc v =
     (case py_dict v of
        None \<Rightarrow> [(loc, NotDict)]
      | Some d \<Rightarrow> dict_items inner loc d)"

text \<open>
  A model is its fields in the order of declaration (name, required or not, type) and
  whether \<^verbatim>\<open>extra = "forbid"\<close> is set; pydantic's default ignores the keys that are
  no field.  The fields are checked in order, then the extra keys, sorted.
\<close>

record model =
  model_fields :: "(string \<times> bool \<times> validator) list"
  extra_forbid :: bool

definition validate_model :: "model \<Rightarrow> loc_item list \<Rightarrow> (string \<times> json) list \<Rightarrow> verrs" where
  "validate_model m loc kvs =
     concat (map (\<lambda>(f, required, check).
                    case map_of kvs f of
                      None \<Rightarrow> if required then [(loc @ [Key f], Missing)] else []
                    | Some v \<Rightarrow> check (loc @ [Key f]) v)
                 (model_fields m))
     @ (if extra_forbid m
        then map (\<lambda>k. (loc @ [Key k], ExtraForbidden))
                 (sort (filter (\<lambda>k. k \<notin> set (map fst (model_fields m))) (remdups (map fst kvs))))
        else [])"

text \<open>
  A model as the type of a field: a mapping gives the keyword arguments of the model, any
  other value goes through \<^verbatim>\<open>dict(value)\<close> first, and then the keywords must be
  strings.
\<close>

fun keyword :: "json \<times> json \<Rightarrow> (string \<times> json) option" where
  "keyword (JStr s, v) = Some (s, v)"
| "keyword _ = None"

fun Model :: "model \<Rightarrow> validator" where
  "Model m loc (JDict kvs) = validate_model m loc kvs"
| "Model m loc JNull = [(loc, NoneNotAllowed)]"
| "Model m loc v =
     (case py_dict v of
        None \<Rightarrow> [(loc, NotDict)]
      | Some d \<Rightarrow>
          (case those (map keyword d) of
             None \<Rightarrow> [(loc, KeywordsNotStr)]
           | Some kvs \<Rightarrow> validate_model m loc kvs))"

definition ProjectConfigCommand :: model where
  "ProjectConfigCommand =
     \<lparr>model_fields =
        [(''name'', True, StrictStr),
         (''help'', False, Optional StrictStr),
         (''script'', False, List_of StrictStr),
         (''deps'', False, List_of StrictStr),
         (''outputs'', False, List_of StrictStr),
         (''outputs_no_cache'', False, List_of StrictStr),
         (''no_skip'', False, lax_bool)],
      extra_forbid = True\<rparr>"

definition ProjectConfigSchema :: model where
  "ProjectConfigSchema =
     \<lparr>model_fields =
        [(''vars'', False, Dict_of Any),
         (''env'', False, Dict_of Any),
         (''workflows'', False, Dict_of (List_of StrictStr)),
         (''commands'', False, List_of (Model ProjectConfigCommand)),
         (''title'', False, Optional lax_str),
         (''description'', False, Optional lax_str)],
      extra_forbid = False\<rparr>"

text \<open>
  \<^verbatim>\<open>validate(schema, obj)\<close>: \<^verbatim>\<open>schema(**obj)\<close> needs a mapping; the errors come
  back as one message for each location, in the order the locations first appear.
\<close>

definition group_errors :: "verrs \<Rightarrow> (loc_item list \<times> verr list) list" where
  "group_errors es =
     map (\<lambda>l. (l, map snd (filter (\<lambda>e. fst e = l) es))) (remdups (map fst es))"

fun validate :: "model \<Rightarrow> json \<Rightarrow> error + (loc_item list \<times> verr list) list" where
  "validate schema (JDict kvs) = Inr (group_errors (validate_model schema [] kvs))"
| "validate schema _ = Inl TypeError"

section \<open>Loading the manifest\<close>

text \<open>
  What \<^verbatim>\<open>validate_project_commands\<close> prints: it has no other effect, unless it
  raises.
\<close>

datatype report =
    DuplicateCommands "string set"
  | WorkflowNameClash string
  | UnknownStep string string

text \<open>
  The running process: the disk, the current working directory, the argument lists of the
  child processes run so far, and the reports printed so far (other output is left out).
\<close>

record state =
  on_disk :: disk
  cwd :: string
  executed :: "string list list"
  console :: "report list"

text \<open>
  Reading the manifest that \<^verbatim>\<open>load_project_config\<close> returns.  By then every
  command is a mapping with a string under \<^verbatim>\<open>name\<close> and \<^verbatim>\<open>workflows\<close> is a
  mapping of lists of strings (the load has raised otherwise, and the interpolation
  leaves the shapes as they are); any other shape reads as empty.
\<close>

fun items :: "json \<Rightarrow> (string \<times> json) list" where
  "items (JDict kvs) = kvs"
| "items _ = []"

fun str_of :: "json \<Rightarrow> string" where
  "str_of (JStr s) = s"
| "str_of _ = []"

fun strs_of :: "json \<Rightarrow> string list" where
  "strs_of (JList xs) = map str_of xs"
| "strs_of _ = []"

definition command_dicts :: "(string \<times> json) list \<Rightarrow> json list" where
  "command_dicts config = (case map_of config ''commands'' of Some (JList cs) \<Rightarrow> cs | _ \<Rightarrow> [])"

definition command_name :: "json \<Rightarrow> string" where
  "command_name cmd = (case map_of (items cmd) ''name'' of Some (JStr n) \<Rightarrow> n | _ \<Rightarrow> [])"

definition workflows_of :: "(string \<times> json) list \<Rightarrow> (string \<times> string list) list" where
  "workflows_of config =
     (case map_of config ''workflows'' of
        Some (JDict ws) \<Rightarrow> map (\<lambda>(n, steps). (n, strs_of steps)) ws
      | _ \<Rightarrow> [])"

text \<open>
  Reading the manifest right after schema validation.  The schema lets a command pass
  that is written as a sequence of pairs, and a \<^verbatim>\<open>workflows\<close> written so, but the
  code reads the document itself: \<^verbatim>\<open>cmd["name"]\<close> raises on a command that is no
  mapping, and \<^verbatim>\<open>workflows.items()\<close> on a value that is none.
\<close>

fun names_of :: "json list \<Rightarrow> error + string list" where
  "names_of [] = Inr []"
| "names_of (JDict kvs # cmds) =
     (case map_of kvs ''name'' of
        None \<Rightarrow> Inl (KeyError ''name'')
      | Some n \<Rightarrow>
          (case names_of cmds of
             Inl e \<Rightarrow> Inl e
           | Inr ns \<Rightarrow> Inr (str_of n # ns)))"
| "names_of (_ # cmds) = Inl TypeError"

definition workflow_items :: "(string \<times> json) list \<Rightarrow> error + (string \<times> string list) list" where
  "workflow_items config =
     (case map_of config ''workflows'' of
        None \<Rightarrow> Inr []
      | Some (JDict ws) \<Rightarrow> Inr (map (\<lambda>(n, steps). (n, strs_of steps)) ws)
      | Some _ \<Rightarrow> Inl AttributeError)"

text \<open>
  The result is what has been printed, with the error when the function raises: the
  names are collected first, the duplicates are printed before the workflows are read.
\<close>

definition validate_project_commands ::
  "(string \<times> json) list \<Rightarrow> (error \<times> report list) + report list" where
  "validate_project_commands config =
     (case names_of (command_dicts config) of
        Inl e \<Rightarrow> Inl (e, [])
      | Inr command_names \<Rightarrow>
          (let duplicates = set (filter (\<lambda>cmd. count_list command_names cmd > 1) command_names);
               printed = (if duplicates \<noteq> {} then [DuplicateCommands duplicates] else [])
           in case workflow_items config of
                Inl e \<Rightarrow> Inl (e, printed)
              | Inr workflows \<Rightarrow>
                  Inr (printed
                       @ concat (map (\<lambda>(workflow_name, workflow_steps).
                                   (if workflow_name \<in> set command_names
                                    then [WorkflowNameClash workflow_name] else [])
                                   @ map (UnknownStep workflow_name)
                                       (filter (\<lambda>step. step \<notin> set command_names) workflow_steps))
                                 workflows))))"

text \<open>
  \<^verbatim>\<open>for subdir in config.get("directories", [])\<close>: the key is no field of the schema, so
  its value is whatever the manifest says; Python iterates over a list, over the
  characters of a string and over the keys of a mapping, and raises on anything else.
\<close>

definition directories_of :: "(string \<times> json) list \<Rightarrow> error + json list" where
  "directories_of config =
     (case map_of config ''directories'' of
        None \<Rightarrow> Inr []
      | Some (JList xs) \<Rightarrow> Inr xs
      | Some (JStr s) \<Rightarrow> Inr (map (\<lambda>c. JStr [c]) s)
      | Some (JDict kvs) \<Rightarrow> Inr (map (\<lambda>kv. JStr (fst kv)) kvs)
      | Some _ \<Rightarrow> Inl TypeError)"

fun make_directories :: "json list \<Rightarrow> disk \<Rightarrow> (error \<times> disk) + disk" where
  "make_directories [] d = Inr d"
| "make_directories (JStr subdir # rest) d =
     make_directories rest
       (if files d subdir = None then d\<lparr>files := (files d)(subdir \<mapsto> Dir [])\<rparr> else d)"
| "make_directories (_ # rest) d = Inl (TypeError, d)"

definition load_project_config ::
  "runtime \<Rightarrow> bool \<Rightarrow> (string \<times> json) list \<Rightarrow> state
     \<Rightarrow> (error \<times> state) + ((string \<times> json) list \<times> state)" where
  "load_project_config rt interpolate overrides s =
     (case manifest (on_disk s) of
        None \<Rightarrow> Inl (UnboundLocalError, s)
      | Some config \<Rightarrow>
          (case validate ProjectConfigSchema config of
             Inl e \<Rightarrow> Inl (e, s)
           | Inr errors \<Rightarrow>
               if errors \<noteq> [] then Inl (SystemExit 1, s)
               else
                 (case validate_project_commands (items config) of
                    Inl (e, printed) \<Rightarrow> Inl (e, s\<lparr>console := console s @ printed\<rparr>)
                  | Inr printed \<Rightarrow>
                      let s1 = s\<lparr>console := console s @ printed\<rparr>
                      in (case directories_of (items config) of
                            Inl e \<Rightarrow> Inl (e, s1)
                          | Inr subdirs \<Rightarrow>
                              (case make_directories subdirs (on_disk s1) of
                                 Inl (e, d) \<Rightarrow> Inl (e, s1\<lparr>on_disk := d\<rparr>)
                               | Inr d \<Rightarrow>
                                   if interpolate
                                   then (case substitute_project_variables rt config overrides of
                                           Inl e \<Rightarrow> Inl (e, s1\<lparr>on_disk := d\<rparr>)
                                         | Inr interpolated \<Rightarrow>
                                             Inr (items interpolated, s1\<lparr>on_disk := d\<rparr>))
                                   else Inr (items config, s1\<lparr>on_disk := d\<rparr>))))))"

section \<open>Running commands\<close>

definition join_words :: "string list \<Rightarrow> string" where
  "join_words ws = concat (case ws of [] \<Rightarrow> [] | w # rest \<Rightarrow> w # map (\<lambda>x. '' '' @ x) rest)"

text \<open>
  \<^verbatim>\<open>run_command\<close> with a list of arguments: a return code other than 0 raises when
  the output is captured and exits with that code when it is not.
\<close>

definition run_command :: "runtime \<Rightarrow> string list \<Rightarrow> bool \<Rightarrow> state \<Rightarrow> (error \<times> state) + state" where
  "run_command rt command capture s =
     (case subprocess_run rt (cwd s) command (on_disk s) of
        None \<Rightarrow> Inl (FileNotFoundError, s)
      | Some (returncode, d) \<Rightarrow>
          (let s1 = s\<lparr>on_disk := d, executed := executed s @ [command]\<rparr>
           in if returncode \<noteq> 0 \<and> capture
              then Inl (SubprocessError (join_words command) returncode, s1)
              else if returncode \<noteq> 0 then Inl (SystemExit returncode, s1)
              else Inr s1))"

definition rewrite_alias :: "runtime \<Rightarrow> string list \<Rightarrow> string list" where
  "rewrite_alias rt command =
     (case command of
        [] \<Rightarrow> []
      | c0 # rest \<Rightarrow>
          if c0 \<in> set [''python'', ''python3''] then sys_executable rt # rest
          else if c0 \<in> set [''pip'', ''pip3''] then [sys_executable rt, ''-m'', ''pip''] @ rest
          else command)"

fun run_commands :: "runtime \<Rightarrow> string list \<Rightarrow> bool \<Rightarrow> bool \<Rightarrow> state \<Rightarrow> (error \<times> state) + state" where
  "run_commands rt [] dry capture s = Inr s"
| "run_commands rt (c # commands) dry capture s =
     (case split_command rt c of
        None \<Rightarrow> Inl (ValueError, s)
      | Some command \<Rightarrow>
          if dry then run_commands rt commands dry capture s
          else (case run_command rt (rewrite_alias rt command) capture s of
                  Inl x \<Rightarrow> Inl x
                | Inr s1 \<Rightarrow> run_commands rt commands dry capture s1))"

text \<open>
  \<^verbatim>\<open>working_dir\<close>: the block between \<^verbatim>\<open>try\<close> and \<^verbatim>\<open>finally\<close> is the
  parameter \<open>body\<close>; \<^verbatim>\<open>finally\<close> runs on a return and on every exception,
  \<^verbatim>\<open>SystemExit\<close> included.
\<close>

definition working_dir ::
  "runtime \<Rightarrow> string \<Rightarrow> (string \<Rightarrow> state \<Rightarrow> (error \<times> state) + state) \<Rightarrow> state
     \<Rightarrow> (error \<times> state) + state" where
  "working_dir rt path body s =
     (let prev_cwd = cwd s;
          current = resolve rt (cwd s) path
      in case body current (s\<lparr>cwd := current\<rparr>) of
           Inl (e, s1) \<Rightarrow> Inl (e, s1\<lparr>cwd := prev_cwd\<rparr>)
         | Inr s1 \<Rightarrow> Inr (s1\<lparr>cwd := prev_cwd\<rparr>))"

definition validate_subcommand :: "string list \<Rightarrow> string list \<Rightarrow> string \<Rightarrow> error + unit" where
  "validate_subcommand commands workflows subcommand =
     (if commands = [] \<and> workflows = [] then Inl (SystemExit 1)
      else if subcommand \<notin> set commands \<and> subcommand \<notin> set workflows then Inl (SystemExit 1)
      else Inr ())"

text \<open>
  \<^verbatim>\<open>{cmd["name"]: cmd for cmd in ...}\<close>: of two commands of one name the later one
  is kept.
\<close>

definition commands_by_name :: "json list \<Rightarrow> (string \<times> json) list" where
  "commands_by_name cmds = foldl (\<lambda>m cmd. AList.update (command_name cmd) cmd m) [] cmds"

definition as_command :: "json \<Rightarrow> command" where
  "as_command cmd =
     \<lparr>name = command_name cmd,
      help_text = (case map_of (items cmd) ''help'' of Some (JStr h) \<Rightarrow> Some h | _ \<Rightarrow> None),
      script = (case map_of (items cmd) ''script'' of None \<Rightarrow> None | Some v \<Rightarrow> Some (strs_of v)),
      deps = (case map_of (items cmd) ''deps'' of None \<Rightarrow> [] | Some v \<Rightarrow> strs_of v),
      outputs = (case map_of (items cmd) ''outputs'' of None \<Rightarrow> [] | Some v \<Rightarrow> strs_of v),
      outputs_no_cache =
        (case map_of (items cmd) ''outputs_no_cache'' of None \<Rightarrow> [] | Some v \<Rightarrow> strs_of v),
      no_skip = (case map_of (items cmd) ''no_skip'' of None \<Rightarrow> False | Some v \<Rightarrow> truthy v)\<rparr>"

text \<open>The \<^verbatim>\<open>for\<close> loop over the steps of a workflow: an exception in a step leaves the loop.\<close>

fun run_steps :: "(string \<Rightarrow> state \<Rightarrow> (error \<times> state) + state) \<Rightarrow> string list \<Rightarrow> state
                    \<Rightarrow> (error \<times> state) + state" where
  "run_steps run [] s = Inr s"
| "run_steps run (cmd # cmds) s =
     (case run cmd s of
        Inl x \<Rightarrow> Inl x
      | Inr s1 \<Rightarrow> run_steps run cmds s1)"

text \<open>The body of \<^verbatim>\<open>with working_dir(project_dir) as current_dir\<close>.\<close>

definition run_in_project ::
  "runtime \<Rightarrow> bool \<Rightarrow> bool \<Rightarrow> bool \<Rightarrow> command \<Rightarrow> string \<Rightarrow> state \<Rightarrow> (error \<times> state) + state" where
  "run_in_project rt force dry capture cmd current_dir s =
     (case check_rerun rt (on_disk s) cmd of
        Inl e \<Rightarrow> Inl (e, s)
      | Inr rerun \<Rightarrow>
          if \<not> rerun \<and> \<not> force then Inr s
          else (case script cmd of
                  None \<Rightarrow> Inl (KeyError ''script'', s)
                | Some lines \<Rightarrow>
                    (case run_commands rt lines dry capture s of
                       Inl x \<Rightarrow> Inl x
                     | Inr s1 \<Rightarrow>
                         if \<not> dry
                         then (case update_lockfile rt (on_disk s1) cmd of
                                 Inl (e, d) \<Rightarrow> Inl (e, s1\<lparr>on_disk := d\<rparr>)
                               | Inr d \<Rightarrow> Inr (s1\<lparr>on_disk := d\<rparr>))
                         else Inr s1)))"

text \<open>
  \<^verbatim>\<open>project_run\<close>.  The first argument is the number of nested calls Python still
  allows: a workflow may name a workflow, itself included, and the interpreter ends such a
  chain with \<^verbatim>\<open>RecursionError\<close>.  The check of \<^verbatim>\<open>requirements.txt\<close> only warns
  and is left out.
\<close>

fun project_run ::
  "nat \<Rightarrow> runtime \<Rightarrow> string \<Rightarrow> (string \<times> json) list \<Rightarrow> bool \<Rightarrow> bool \<Rightarrow> bool \<Rightarrow> string \<Rightarrow> state
     \<Rightarrow> (error \<times> state) + state" where
  "project_run 0 rt project_dir overrides force dry capture subcommand s = Inl (RecursionError, s)"
| "project_run (Suc depth) rt project_dir overrides force dry capture subcommand s =
     (case load_project_config rt True overrides s of
        Inl x \<Rightarrow> Inl x
      | Inr (config, s1) \<Rightarrow>
          (let commands = commands_by_name (command_dicts config);
               workflows = workflows_of config
           in case validate_subcommand (map fst commands) (map fst workflows) subcommand of
                Inl e \<Rightarrow> Inl (e, s1)
              | Inr _ \<Rightarrow>
                  (case map_of workflows subcommand of
                     Some steps \<Rightarrow>
                       run_steps (\<lambda>cmd t. project_run depth rt project_dir overrides force dry capture cmd t)
                         steps s1
                   | None \<Rightarrow>
                       (case map_of commands subcommand of
                          None \<Rightarrow> Inl (KeyError subcommand, s1)
                        | Some c \<Rightarrow>
                            (let cmd = as_command c
                             in if \<not> dry \<and> list_ex (\<lambda>dep. files (on_disk s1) dep = None) (deps cmd)
                                then Inl (SystemExit 1, s1)
                                else working_dir rt project_dir
                                       (run_in_project rt force dry capture cmd) s1)))))"

section \<open>Config overrides\<close>

definition startswith :: "string \<Rightarrow> string \<Rightarrow> bool" where
  "startswith s p = (take (length p) s = p)"

text \<open>\<^verbatim>\<open>opt.replace("--", "")\<close>: every pair of dashes goes, from the left, wherever it stands.\<close>

fun replace_dashdash :: "string \<Rightarrow> string" where
  "replace_dashdash (a # b # rest) =
     (if a = CHR ''-'' \<and> b = CHR ''-'' then replace_dashdash rest
      else a # replace_dashdash (b # rest))"
| "replace_dashdash s = s"

definition replace_dash_underscore :: "string \<Rightarrow> string" where
  "replace_dash_underscore s = map (\<lambda>c. if c = CHR ''-'' then CHR ''_'' else c) s"

text \<open>\<^verbatim>\<open>opt.split("=", 1)\<close> of a string that has the sign.\<close>

definition split_eq :: "string \<Rightarrow> string \<times> string" where
  "split_eq s = (takeWhile (\<lambda>c. c \<noteq> CHR ''='') s, tl (dropWhile (\<lambda>c. c \<noteq> CHR ''='') s))"

definition parse_override :: "runtime \<Rightarrow> string \<Rightarrow> json" where
  "parse_override rt v = (case json_loads rt v of Some j \<Rightarrow> j | None \<Rightarrow> JStr v)"

text \<open>
  \<^verbatim>\<open>_parse_overrides\<close>: the loop takes one token, or two when the value is a token
  of its own; \<open>result\<close> is the dictionary built so far.
\<close>

fun parse_overrides ::
  "runtime \<Rightarrow> bool \<Rightarrow> string list \<Rightarrow> (string \<times> json) list \<Rightarrow> error + (string \<times> json) list" where
  "parse_overrides rt is_cli [] result = Inr result"
| "parse_overrides rt is_cli (orig_opt # args) result =
     (if startswith orig_opt ''--''
      then (let opt = replace_dashdash orig_opt
            in if CHR ''.'' \<notin> set opt
               then Inl (if is_cli then NoSuchOption orig_opt else SystemExit 1)
               else if CHR ''='' \<in> set opt
               then parse_overrides rt is_cli args
                      (AList.update (replace_dash_underscore (fst (split_eq opt)))
                         (parse_override rt (snd (split_eq opt))) result)
               else (case args of
                       [] \<Rightarrow>
                         parse_overrides rt is_cli []
                           (AList.update opt (parse_override rt ''true'') result)
                     | a # rest \<Rightarrow>
                         if startswith a ''--''
                         then parse_overrides rt is_cli (a # rest)
                                (AList.update opt (parse_override rt ''true'') result)
                         else parse_overrides rt is_cli rest
                                (AList.update opt (parse_override rt a) result)))
      else Inl (SystemExit 1))"

text \<open>\<^verbatim>\<open>{**a, **b}\<close>: the entries of \<open>a\<close>, then those of \<open>b\<close> over them.\<close>

definition dict_merge :: "(string \<times> json) list \<Rightarrow> (string \<times> json) list \<Rightarrow> (string \<times> json) list" where
  "dict_merge a b = fold (\<lambda>kv m. AList.update (fst kv) (snd kv) m) b a"

definition CONFIG_OVERRIDES :: string where
  "CONFIG_OVERRIDES = ''D_CONFIG_OVERRIDES''"

text \<open>\<^verbatim>\<open>os.environ.get(env_var, "") if env_var else ""\<close>\<close>

definition env_string :: "(string \<Rightarrow> string option) \<Rightarrow> string option \<Rightarrow> string" where
  "env_string environ env_var =
     (case env_var of
        None \<Rightarrow> []
      | Some v \<Rightarrow> if v = [] then [] else (case environ v of None \<Rightarrow> [] | Some x \<Rightarrow> x))"

definition parse_config_overrides ::
  "runtime \<Rightarrow> (string \<Rightarrow> string option) \<Rightarrow> string list \<Rightarrow> string option
     \<Rightarrow> error + (string \<times> json) list" where
  "parse_config_overrides rt environ args env_var =
     (case parse_overrides rt False (split_arg_string rt (env_string environ env_var)) [] of
        Inl e \<Rightarrow> Inl e
      | Inr env_overrides \<Rightarrow>
          (case parse_overrides rt True args [] of
             Inl e \<Rightarrow> Inl e
           | Inr cli_overrides \<Rightarrow> Inr (dict_merge cli_overrides env_overrides)))"

section \<open>Concrete inputs\<close>

text \<open>
  A runtime to evaluate the definitions on: the digest is the identity (no two inputs
  collide), the encoding writes a document out in full, a script line is one argument,
  the program \<^verbatim>\<open>false\<close> returns 1 and every other program returns 0, and nothing
  touches the disk.
\<close>

fun example_dumps :: "json \<Rightarrow> bytes" where
  "example_dumps JNull = ''null''"
| "example_dumps (JBool b) = (if b then ''true'' else ''false'')"
| "example_dumps (JNum n) = (if n = 0 then ''0'' else ''1'')"
| "example_dumps (JStr s) = ''\"'' @ s @ ''\"''"
| "example_dumps (JList xs) = ''['' @ concat (map (\<lambda>x. example_dumps x @ '','') xs) @ '']''"
| "example_dumps (JDict kvs) =
     ''{'' @ concat (map (\<lambda>(k, v). ''\"'' @ k @ ''\":'' @ example_dumps v @ '','') kvs) @ ''}''"

definition example_runtime :: runtime where
  "example_runtime =
     \<lparr>md5 = (\<lambda>b. b),
      json_dumps = example_dumps,
      json_loads = (\<lambda>s. None),
      split_arg_string = (\<lambda>s. if s = [] then [] else [s]),
      split_command = (\<lambda>s. Some [s]),
      sys_executable = ''python'',
      resolve = (\<lambda>cwd path. cwd @ ''/'' @ path),
      subprocess_run = (\<lambda>cwd argv d. Some (if argv = [''false''] then 1 else 0, d)),
      substitute_project_variables = (\<lambda>config overrides. Inr config)\<rparr>"

definition example_build :: command where
  "example_build =
     \<lparr>name = ''build'', help_text = None, script = Some [''true''], deps = [''src.txt''],
      outputs = [''out.txt''], outputs_no_cache = [], no_skip = False\<rparr>"

definition example_files :: files where
  "example_files = [''src.txt'' \<mapsto> File ''abc'']"











definition example_tree :: node where
  "example_tree =
     Dir [(''b'', File ''B''), (''a'', Dir [(''y'', File ''Y''), (''x'', File ''X'')]),
          (''c'', Special)]"

definition example_tree_reordered :: node where
  "example_tree_reordered =
     Dir [(''c'', Special), (''a'', Dir [(''x'', File ''X''), (''y'', File ''Y'')]),
          (''b'', File ''B'')]"

definition example_tree_changed :: node where
  "example_tree_changed =
     Dir [(''b'', File ''B''), (''a'', Dir [(''y'', File ''Y2''), (''x'', File ''X'')]),
          (''c'', Special)]"

definition example_tree_removed :: node where
  "example_tree_removed =
     Dir [(''b'', File ''B''), (''a'', Dir [(''x'', File ''X'')]), (''c'', Special)]"




definition example_state :: "json \<Rightarrow> state" where
  "example_state m =
     \<lparr>on_disk = \<lparr>files = example_files, manifest = Some m, lockfile = None\<rparr>,
      cwd = ''/home'', executed = [], console = []\<rparr>"

text \<open>The state a call leaves behind, whether it returns or raises.\<close>

fun final_state :: "(error \<times> state) + state \<Rightarrow> state" where
  "final_state (Inl (e, s)) = s"
| "final_state (Inr s) = s"

text \<open>
  A manifest with two workflows over a command that fails and one that succeeds; one
  with two commands of one name; one whose workflow names a command that does not exist.
\<close>

definition example_workflow :: json where
  "example_workflow =
     JDict [(''workflows'', JDict [(''all'', JList [JStr ''fail'', JStr ''build'']),
                                   (''rebuild'', JList [JStr ''build'', JStr ''fail''])]),
            (''commands'', JList [JDict [(''name'', JStr ''fail''),
                                         (''script'', JList [JStr ''false''])],
                                  JDict [(''name'', JStr ''build''),
                                         (''script'', JList [JStr ''true''])]])]"

definition example_duplicate :: json where
  "example_duplicate =
     JDict [(''commands'', JList [JDict [(''name'', JStr ''build''),
                                         (''script'', JList [JStr ''first''])],
                                  JDict [(''name'', JStr ''build''),
                                         (''script'', JList [JStr ''second''])]])]"

definition example_unresolved :: json where
  "example_unresolved =
     JDict [(''workflows'', JDict [(''all'', JList [JStr ''build'', JStr ''missing''])]),
            (''commands'', JList [JDict [(''name'', JStr ''build''),
                                         (''script'', JList [JStr ''true''])]])]"

definition example_built_entry :: json where
  "example_built_entry =
     JDict [(''cmd'', JStr ''project run build''),
            (''script'', JList [JStr ''true'']),
            (''deps'', JList []),
            (''outs'', JList [])]"

text \<open>
  The states that the commands of \<open>example_workflow\<close> leave behind, from
  \<open>example_state example_workflow\<close>: after \<^verbatim>\<open>fail\<close>, after \<^verbatim>\<open>build\<close>, and
  after \<^verbatim>\<open>build\<close> followed by \<^verbatim>\<open>fail\<close>.
\<close>

definition example_after_fail :: state where
  "example_after_fail =
     \<lparr>on_disk = \<lparr>files = example_files, manifest = Some example_workflow, lockfile = None\<rparr>,
      cwd = ''/home'', executed = [[''false'']], console = []\<rparr>"

definition example_after_build :: state where
  "example_after_build =
     \<lparr>on_disk = \<lparr>files = example_files, manifest = Some example_workflow,
                 lockfile = Some [(''build'', example_built_entry)]\<rparr>,
      cwd = ''/home'', executed = [[''true'']], console = []\<rparr>"

definition example_after_rebuild :: state where
  "example_after_rebuild =
     \<lparr>on_disk = \<lparr>files = example_files, manifest = Some example_workflow,
                 lockfile = Some [(''build'', example_built_entry)]\<rparr>,
      cwd = ''/home'', executed = [[''true''], [''false'']], console = []\<rparr>"

definition example_clash :: json where
  "example_clash =
     JDict [(''workflows'', JDict [(''build'', JList [JStr ''test''])]),
            (''commands'', JList [JDict [(''name'', JStr ''build''),
                                         (''script'', JList [JStr ''first''])],
                                  JDict [(''name'', JStr ''test''),
                                         (''script'', JList [JStr ''second''])]])]"

text \<open>
  The states that \<open>project_run\<close> leaves behind for the manifests with a semantic error:
  \<^verbatim>\<open>build\<close> of \<open>example_duplicate\<close>, \<^verbatim>\<open>all\<close> of \<open>example_unresolved\<close> and
  \<^verbatim>\<open>build\<close> of \<open>example_clash\<close>.
\<close>

definition example_after_duplicate :: state where
  "example_after_duplicate =
     \<lparr>on_disk = \<lparr>files = example_files, manifest = Some example_duplicate,
                 lockfile = Some [(''build'',
                   JDict [(''cmd'', JStr ''project run build''),
                          (''script'', JList [JStr ''second'']),
                          (''deps'', JList []),
                          (''outs'', JList [])])]\<rparr>,
      cwd = ''/home'', executed = [[''second'']],
      console = [DuplicateCommands {''build''}]\<rparr>"

definition example_after_unresolved :: state where
  "example_after_unresolved =
     \<lparr>on_disk = \<lparr>files = example_files, manifest = Some example_unresolved,
                 lockfile = Some [(''build'', example_built_entry)]\<rparr>,
      cwd = ''/home'', executed = [[''true'']],
      console = [UnknownStep ''all'' ''missing'', UnknownStep ''all'' ''missing'',
                 UnknownStep ''all'' ''missing'']\<rparr>"

definition example_after_clash :: state where
  "example_after_clash =
     \<lparr>on_disk = \<lparr>files = example_files, manifest = Some example_clash,
                 lockfile = Some [(''test'',
                   JDict [(''cmd'', JStr ''project run test''),
                          (''script'', JList [JStr ''second'']),
                          (''deps'', JList []),
                          (''outs'', JList [])])]\<rparr>,
      cwd = ''/home'', executed = [[''second'']],
      console = [WorkflowNameClash ''build'', WorkflowNameClash ''build'']\<rparr>"

section \<open>Properties of lock entries\<close>

lemma get_fileinfo_hashable:
  "list_all (hashable fs) paths \<Longrightarrow>
   get_fileinfo h fs paths = Inr (map (\<lambda>p. fileinfo p (digest_of h fs p)) paths)"
proof (induction paths)
  case Nil
  show ?case by simp
next
  case (Cons p ps)
  from Cons.prems have hp: "hashable fs p" and hps: "list_all (hashable fs) ps"
    by simp_all
  have step: "(if fs p \<noteq> None then map_sum id Some (get_checksum h fs p) else Inr None)
              = Inr (digest_of h fs p)"
    using hp
    by (auto simp: hashable_def get_checksum_def digest_of_def split: option.splits node.splits)
  show ?case
    using Cons.IH [OF hps] step by simp
qed

lemma get_fileinfo_append:
  "get_fileinfo h fs (xs @ ys) =
     (case get_fileinfo h fs xs of
        Inl e \<Rightarrow> Inl e
      | Inr a \<Rightarrow> (case get_fileinfo h fs ys of Inl e \<Rightarrow> Inl e | Inr b \<Rightarrow> Inr (a @ b)))"
  by (induction xs) (auto split: sum.splits)

text \<open>
  Claim C6, as the code has it.  For every command that has a script and whose declared
  paths each name a file, a directory or nothing, \<open>get_lock_entry\<close> returns the entry
  whose \<^verbatim>\<open>cmd\<close> is the string \<^verbatim>\<open>project run\<close>, a space and the command's name,
  whose \<^verbatim>\<open>script\<close> is the command's script, whose \<^verbatim>\<open>deps\<close> is the list of path
  and checksum over the command's \<^verbatim>\<open>deps\<close> in order (the checksum null for an absent
  path), and whose \<^verbatim>\<open>outs\<close> is the same over \<^verbatim>\<open>outputs\<close> followed by
  \<^verbatim>\<open>outputs_no_cache\<close>.
\<close>

theorem get_lock_entry_fields:
  assumes "script c = Some sc"
    and "list_all (hashable fs) (deps c @ outputs c @ outputs_no_cache c)"
  shows "get_lock_entry h fs c =
           Inr (JDict [(''cmd'', JStr (''project run '' @ name c)),
                       (''script'', JList (map JStr sc)),
                       (''deps'', JList (map (\<lambda>p. fileinfo p (digest_of h fs p)) (deps c))),
                       (''outs'', JList (map (\<lambda>p. fileinfo p (digest_of h fs p))
                                           (outputs c @ outputs_no_cache c)))])"
proof -
  from assms(2) have d: "list_all (hashable fs) (deps c)"
    and out: "list_all (hashable fs) (outputs c)"
    and nc: "list_all (hashable fs) (outputs_no_cache c)"
    by simp_all
  show ?thesis
    unfolding get_lock_entry_def
    by (simp add: get_fileinfo_hashable [OF d] get_fileinfo_hashable [OF out]
        get_fileinfo_hashable [OF nc] assms(1))
qed

theorem get_lock_entry_fields_witness:
  "script example_build = Some [''true''] \<and>
   list_all (hashable example_files)
     (deps example_build @ outputs example_build @ outputs_no_cache example_build) \<and>
   get_lock_entry (\<lambda>b. b) example_files example_build =
     Inr (JDict [(''cmd'', JStr ''project run build''),
                 (''script'', JList [JStr ''true'']),
                 (''deps'', JList [JDict [(''path'', JStr ''src.txt''), (''md5'', JStr ''abc'')]]),
                 (''outs'', JList [JDict [(''path'', JStr ''out.txt''), (''md5'', JNull)]])])"
proof -
  have s: "script example_build = Some [''true'']"
    by (simp add: example_build_def)
  have p: "list_all (hashable example_files)
             (deps example_build @ outputs example_build @ outputs_no_cache example_build)"
    by (simp add: example_build_def example_files_def hashable_def)
  show ?thesis
    using s p get_lock_entry_fields [OF s p, of "\<lambda>b. b"]
    by (simp add: example_build_def example_files_def digest_of_def fileinfo_def)
qed

text \<open>
  Claim C6 as the specification states it fails: the \<^verbatim>\<open>cmd\<close> of the entry for the
  command \<^verbatim>\<open>build\<close> is \<^verbatim>\<open>project run build\<close>, not \<^verbatim>\<open>run build\<close>.
\<close>

theorem get_lock_entry_cmd_counterexample:
  "get_lock_entry (\<lambda>b. b) example_files example_build =
     Inr (JDict [(''cmd'', JStr ''project run build''),
                 (''script'', JList [JStr ''true'']),
                 (''deps'', JList [JDict [(''path'', JStr ''src.txt''), (''md5'', JStr ''abc'')]]),
                 (''outs'', JList [JDict [(''path'', JStr ''out.txt''), (''md5'', JNull)]])]) \<and>
   ''project run build'' \<noteq> ''run '' @ name example_build"
  by (simp add: get_lock_entry_def example_build_def example_files_def get_checksum_def fileinfo_def)

text \<open>
  Claim C8.  A path that names nothing on disk gets the entry with a null digest in the
  list \<open>get_fileinfo\<close> builds for \<^verbatim>\<open>deps\<close> and \<^verbatim>\<open>outs\<close>, wherever it stands in
  the list of paths, and is never the cause of an error: the result fails only where the
  paths before it or after it fail.
\<close>

theorem get_fileinfo_absent:
  assumes "fs p = None"
  shows "get_fileinfo h fs (qs @ p # ps) =
           (case get_fileinfo h fs qs of
              Inl e \<Rightarrow> Inl e
            | Inr a \<Rightarrow>
                (case get_fileinfo h fs ps of
                   Inl e \<Rightarrow> Inl e
                 | Inr b \<Rightarrow> Inr (a @ JDict [(''path'', JStr p), (''md5'', JNull)] # b)))"
  using assms by (simp add: get_fileinfo_append fileinfo_def split: sum.splits)

theorem get_fileinfo_absent_witness:
  "example_files ''out.txt'' = None \<and>
   get_fileinfo (\<lambda>b. b) example_files ([''src.txt''] @ ''out.txt'' # []) =
     Inr [JDict [(''path'', JStr ''src.txt''), (''md5'', JStr ''abc'')],
          JDict [(''path'', JStr ''out.txt''), (''md5'', JNull)]]"
proof -
  have a: "example_files ''out.txt'' = None"
    by (simp add: example_files_def)
  show ?thesis
    using a get_fileinfo_absent [of example_files "''out.txt''" "\<lambda>b. b" "[''src.txt'']" "[]"]
    by (simp add: example_files_def get_checksum_def fileinfo_def)
qed

section \<open>Properties of the rerun decision\<close>














section \<open>Properties of the directory checksum\<close>

lemma sorted_files_sorted: "sorted (map fst (sorted_files d))"
  by (simp add: sorted_files_def)

lemma sorted_files_mset: "mset (sorted_files d) = mset (contained_files d)"
  by (simp add: sorted_files_def)

lemma sorted_files_reorder:
  assumes "mset (contained_files d') = mset (contained_files d)"
    and "distinct (map fst (contained_files d))"
  shows "sorted_files d' = sorted_files d"
proof -
  from assms(2) have "inj_on fst (set (contained_files d))"
    by (simp add: distinct_map)
  with assms(1) [symmetric]
  have "sort_key fst (contained_files d) = sort_key fst (contained_files d')"
    by (rule sort_key_eq_sort_key)
  then show ?thesis
    by (simp add: sorted_files_def)
qed

lemma dir_bytes_one_changed:
  assumes "sorted_files d = pre @ (p, File b) # post"
    and "sorted_files d' = pre @ (p, File b') # post" and "b \<noteq> b'"
  shows "dir_bytes d \<noteq> dir_bytes d'"
  using assms by (simp add: dir_bytes_def)

lemma dir_bytes_one_removed:
  assumes "sorted_files d = pre @ (p, File b) # post"
    and "sorted_files d' = pre @ post" and "b \<noteq> []"
  shows "dir_bytes d \<noteq> dir_bytes d'"
  using assms by (simp add: dir_bytes_def)

lemma get_checksum_dir:
  "fs path = Some d \<Longrightarrow> is_dir d \<Longrightarrow> get_checksum h fs path = Inr (h (dir_bytes d))"
  by (cases d) (simp_all add: get_checksum_def)

lemma get_checksum_dir_neq:
  assumes "fs path = Some d" and "is_dir d" and "fs' path' = Some d'" and "is_dir d'"
    and "dir_bytes d' \<noteq> dir_bytes d" and "inj h"
  shows "get_checksum h fs' path' \<noteq> get_checksum h fs path"
proof -
  from assms(5,6) have "h (dir_bytes d') \<noteq> h (dir_bytes d)"
    by (auto dest: injD)
  moreover have "get_checksum h fs path = Inr (h (dir_bytes d))"
    using assms(1,2) by (rule get_checksum_dir)
  moreover have "get_checksum h fs' path' = Inr (h (dir_bytes d'))"
    using assms(3,4) by (rule get_checksum_dir)
  ultimately show ?thesis
    by simp
qed

text \<open>
  Claim C7, as the code has it.  For a directory, \<open>get_checksum\<close> digests the
  concatenation of the contents of every regular file below it, each once, in the
  lexicographic order of their paths (compared component by component); the result is
  the same for every order in which the disk lists the files (no two files having one
  path); when the content of exactly one file changes, or one file that is not empty is
  removed, the digested bytes change, and so does the result for a digest that maps no
  two inputs to one value.
\<close>

theorem get_checksum_directory:
  assumes "fs path = Some d" and "is_dir d" and "fs' path' = Some d'" and "is_dir d'"
  shows "get_checksum h fs path =
           Inr (h (concat (map (\<lambda>pc. read_bytes (snd pc)) (sorted_files d)))) \<and>
         sorted (map fst (sorted_files d)) \<and>
         mset (sorted_files d) = mset (contained_files d) \<and>
         (mset (contained_files d') = mset (contained_files d) \<longrightarrow>
          distinct (map fst (contained_files d)) \<longrightarrow>
            get_checksum h fs' path' = get_checksum h fs path) \<and>
         (sorted_files d = pre @ (p, File b) # post \<longrightarrow>
          sorted_files d' = pre @ (p, File b') # post \<longrightarrow> b' \<noteq> b \<longrightarrow>
            dir_bytes d' \<noteq> dir_bytes d \<and>
            (inj h \<longrightarrow> get_checksum h fs' path' \<noteq> get_checksum h fs path)) \<and>
         (sorted_files d = pre @ (p, File b) # post \<longrightarrow>
          sorted_files d' = pre @ post \<longrightarrow> b \<noteq> [] \<longrightarrow>
            dir_bytes d' \<noteq> dir_bytes d \<and>
            (inj h \<longrightarrow> get_checksum h fs' path' \<noteq> get_checksum h fs path))"
proof (intro conjI impI)
  have g: "get_checksum h fs path = Inr (h (dir_bytes d))"
    using assms(1,2) by (rule get_checksum_dir)
  have g': "get_checksum h fs' path' = Inr (h (dir_bytes d'))"
    using assms(3,4) by (rule get_checksum_dir)
  show "get_checksum h fs path =
          Inr (h (concat (map (\<lambda>pc. read_bytes (snd pc)) (sorted_files d))))"
    using g by (simp add: dir_bytes_def)
  show "sorted (map fst (sorted_files d))"
    by (rule sorted_files_sorted)
  show "mset (sorted_files d) = mset (contained_files d)"
    by (rule sorted_files_mset)
  {
    assume "mset (contained_files d') = mset (contained_files d)"
      and "distinct (map fst (contained_files d))"
    then have "sorted_files d' = sorted_files d"
      by (rule sorted_files_reorder)
    then have "dir_bytes d' = dir_bytes d"
      by (simp only: dir_bytes_def)
    with g g' show "get_checksum h fs' path' = get_checksum h fs path"
      by simp
  }
  {
    assume s: "sorted_files d = pre @ (p, File b) # post"
      and s': "sorted_files d' = pre @ (p, File b') # post" and ne: "b' \<noteq> b"
    from ne have "b \<noteq> b'" by simp
    with s s' have "dir_bytes d \<noteq> dir_bytes d'"
      by (rule dir_bytes_one_changed)
    then show c: "dir_bytes d' \<noteq> dir_bytes d"
      by simp
    assume "inj h"
    with assms c show "get_checksum h fs' path' \<noteq> get_checksum h fs path"
      by (rule get_checksum_dir_neq)
  }
  {
    assume s: "sorted_files d = pre @ (p, File b) # post"
      and s': "sorted_files d' = pre @ post" and ne: "b \<noteq> []"
    then have "dir_bytes d \<noteq> dir_bytes d'"
      by (rule dir_bytes_one_removed)
    then show c: "dir_bytes d' \<noteq> dir_bytes d"
      by simp
    assume "inj h"
    with assms c show "get_checksum h fs' path' \<noteq> get_checksum h fs path"
      by (rule get_checksum_dir_neq)
  }
qed

theorem get_checksum_directory_witness:
  "mset (contained_files example_tree_reordered) = mset (contained_files example_tree) \<and>
   distinct (map fst (contained_files example_tree)) \<and>
   sorted_files example_tree =
     [([''a'', ''x''], File ''X'')] @ ([''a'', ''y''], File ''Y'') # [([''b''], File ''B'')] \<and>
   sorted_files example_tree_changed =
     [([''a'', ''x''], File ''X'')] @ ([''a'', ''y''], File ''Y2'') # [([''b''], File ''B'')] \<and>
   sorted_files example_tree_removed =
     [([''a'', ''x''], File ''X'')] @ [([''b''], File ''B'')] \<and>
   inj (\<lambda>b::bytes. b) \<and>
   get_checksum (\<lambda>b. b) [''data'' \<mapsto> example_tree] ''data'' = Inr ''XYB'' \<and>
   get_checksum (\<lambda>b. b) [''data'' \<mapsto> example_tree_reordered] ''data'' =
     get_checksum (\<lambda>b. b) [''data'' \<mapsto> example_tree] ''data'' \<and>
   get_checksum (\<lambda>b. b) [''data'' \<mapsto> example_tree_changed] ''data'' \<noteq>
     get_checksum (\<lambda>b. b) [''data'' \<mapsto> example_tree] ''data'' \<and>
   get_checksum (\<lambda>b. b) [''data'' \<mapsto> example_tree_removed] ''data'' \<noteq>
     get_checksum (\<lambda>b. b) [''data'' \<mapsto> example_tree] ''data''"
proof -
  let ?h = "\<lambda>b::bytes. b"
  have m: "mset (contained_files example_tree_reordered) = mset (contained_files example_tree)"
    by (simp add: contained_files_def example_tree_reordered_def example_tree_def)
  have d: "distinct (map fst (contained_files example_tree))"
    by (simp add: contained_files_def example_tree_def)
  have s: "sorted_files example_tree =
      [([''a'', ''x''], File ''X'')] @ ([''a'', ''y''], File ''Y'') # [([''b''], File ''B'')]"
    by code_simp
  have sc: "sorted_files example_tree_changed =
      [([''a'', ''x''], File ''X'')] @ ([''a'', ''y''], File ''Y2'') # [([''b''], File ''B'')]"
    by code_simp
  have sr: "sorted_files example_tree_removed =
      [([''a'', ''x''], File ''X'')] @ [([''b''], File ''B'')]"
    by code_simp
  have i: "inj ?h"
    by simp
  have l: "[''data'' \<mapsto> t] ''data'' = Some t" for t :: node
    by simp
  have dirs: "is_dir example_tree" "is_dir example_tree_reordered"
    "is_dir example_tree_changed" "is_dir example_tree_removed"
    by (simp_all add: example_tree_def example_tree_reordered_def example_tree_changed_def
        example_tree_removed_def)
  have v: "get_checksum ?h [''data'' \<mapsto> example_tree] ''data'' = Inr ''XYB''"
    using get_checksum_directory [of "[''data'' \<mapsto> example_tree]" "''data''" example_tree
        "[''data'' \<mapsto> example_tree]" "''data''" example_tree ?h]
      dirs s by simp
  have r: "get_checksum ?h [''data'' \<mapsto> example_tree_reordered] ''data'' =
      get_checksum ?h [''data'' \<mapsto> example_tree] ''data''"
    using get_checksum_directory [of "[''data'' \<mapsto> example_tree]" "''data''" example_tree
        "[''data'' \<mapsto> example_tree_reordered]" "''data''" example_tree_reordered ?h]
      dirs m d by simp
  have c: "get_checksum ?h [''data'' \<mapsto> example_tree_changed] ''data'' \<noteq>
      get_checksum ?h [''data'' \<mapsto> example_tree] ''data''"
    using get_checksum_directory [of "[''data'' \<mapsto> example_tree]" "''data''" example_tree
        "[''data'' \<mapsto> example_tree_changed]" "''data''" example_tree_changed ?h "[([''a'', ''x''], File ''X'')]" "[''a'', ''y'']" "''Y''"
        "[([''b''], File ''B'')]" "''Y2''"]
      dirs s sc i by auto
  have x: "get_checksum ?h [''data'' \<mapsto> example_tree_removed] ''data'' \<noteq>
      get_checksum ?h [''data'' \<mapsto> example_tree] ''data''"
    using get_checksum_directory [of "[''data'' \<mapsto> example_tree]" "''data''" example_tree
        "[''data'' \<mapsto> example_tree_removed]" "''data''" example_tree_removed ?h "[([''a'', ''x''], File ''X'')]" "[''a'', ''y'']" "''Y''"
        "[([''b''], File ''B'')]"]
      dirs s sr i by auto
  from m d s sc sr i v r c x show ?thesis
    by (intro conjI)
qed

text \<open>
  Claim C7 as the specification states it fails, whatever the digest: removing an empty
  file leaves the concatenation and so the checksum as it was, and so does moving bytes
  from the head of one file to the end of the file before it, which changes the content
  of both.
\<close>

theorem get_checksum_unchanged_counterexample:
  "get_checksum (\<lambda>b. b) [''data'' \<mapsto> Dir [(''b'', File ''x'')]] ''data'' =
     get_checksum (\<lambda>b. b) [''data'' \<mapsto> Dir [(''a'', File []), (''b'', File ''x'')]] ''data'' \<and>
   get_checksum (\<lambda>b. b) [''data'' \<mapsto> Dir [(''a'', File ''x''), (''b'', File ''yz'')]] ''data'' =
     get_checksum (\<lambda>b. b) [''data'' \<mapsto> Dir [(''a'', File ''xy''), (''b'', File ''z'')]] ''data''"
  by code_simp

section \<open>Properties of the config overrides\<close>

lemma parse_overrides_distinct:
  "parse_overrides rt is_cli args result = Inr m \<Longrightarrow> distinct (map fst result) \<Longrightarrow>
   distinct (map fst m)"
proof (induction rt is_cli args result rule: parse_overrides.induct)
  case (1 rt is_cli result)
  then show ?case by simp
next
  case (2 rt is_cli orig_opt args result)
  let ?opt = "replace_dashdash orig_opt"
  from "2.prems"(1) have sw: "startswith orig_opt ''--''" and dot: "CHR ''.'' \<in> set ?opt"
    by (subst (asm) parse_overrides.simps(2),
        auto simp: Let_def split: if_splits simp del: parse_overrides.simps)+
  show ?case
  proof (cases "CHR ''='' \<in> set ?opt")
    case True
    with "2.prems"(1) sw dot
    have "parse_overrides rt is_cli args
            (AList.update (replace_dash_underscore (fst (split_eq ?opt)))
               (parse_override rt (snd (split_eq ?opt))) result) = Inr m"
      by (subst (asm) parse_overrides.simps(2)) (simp add: Let_def del: parse_overrides.simps)
    then show ?thesis
      using "2.IH"(1) [OF sw refl _ True] dot "2.prems"(2)
        by (simp add: distinct_update del: parse_overrides.simps)
  next
    case False
    show ?thesis
    proof (cases args)
      case Nil
      with "2.prems"(1) sw dot False
      have "parse_overrides rt is_cli [] (AList.update ?opt (parse_override rt ''true'') result) = Inr m"
        by (subst (asm) parse_overrides.simps(2)) (simp add: Let_def del: parse_overrides.simps)
      then show ?thesis
        using "2.IH"(2) [OF sw refl _ False Nil] dot "2.prems"(2)
        by (simp add: distinct_update del: parse_overrides.simps)
    next
      case (Cons a rest)
      show ?thesis
      proof (cases "startswith a ''--''")
        case True
        with "2.prems"(1) sw dot False Cons
        have "parse_overrides rt is_cli (a # rest)
                (AList.update ?opt (parse_override rt ''true'') result) = Inr m"
          by (subst (asm) parse_overrides.simps(2)) (simp add: Let_def del: parse_overrides.simps)
        then show ?thesis
          using "2.IH"(3) [OF sw refl _ False Cons True] dot "2.prems"(2)
          by (simp add: distinct_update del: parse_overrides.simps)
      next
        case nsw: False
        with "2.prems"(1) sw dot False Cons
        have "parse_overrides rt is_cli rest
                (AList.update ?opt (parse_override rt a) result) = Inr m"
          by (subst (asm) parse_overrides.simps(2)) (simp add: Let_def del: parse_overrides.simps)
        then show ?thesis
          using "2.IH"(4) [OF sw refl _ False Cons nsw] dot "2.prems"(2)
          by (simp add: distinct_update del: parse_overrides.simps)
      qed
    qed
  qed
qed

lemma map_of_dict_merge:
  "distinct (map fst b) \<Longrightarrow> map_of (dict_merge a b) = map_of a ++ map_of b"
proof (induction b arbitrary: a)
  case Nil
  show ?case by (simp add: dict_merge_def)
next
  case (Cons kv b)
  from Cons.prems have d: "distinct (map fst b)" and n: "fst kv \<notin> fst ` set b"
    by auto
  have "dict_merge a (kv # b) = dict_merge (AList.update (fst kv) (snd kv) a) b"
    by (simp add: dict_merge_def)
  moreover have "map_of (AList.update (fst kv) (snd kv) a) = (map_of a)(fst kv \<mapsto> snd kv)"
    by (rule update_conv')
  ultimately have "map_of (dict_merge a (kv # b)) = (map_of a)(fst kv \<mapsto> snd kv) ++ map_of b"
    using Cons.IH [OF d, of "AList.update (fst kv) (snd kv) a"] by (simp only:)
  also have "\<dots> = map_of a ++ map_of (kv # b)"
  proof
    fix k
    from n have "map_of b (fst kv) = None"
      by (simp add: map_of_eq_None_iff)
    then show "((map_of a)(fst kv \<mapsto> snd kv) ++ map_of b) k = (map_of a ++ map_of (kv # b)) k"
      by (cases kv) (auto simp: map_add_def split: option.splits)
  qed
  finally show ?case .
qed


text \<open>
  Claim C2, as the code has it.  Whenever the tokens of the override environment
  variable and the tokens of the command line both parse, \<open>parse_config_overrides\<close>
  returns the merged mapping, and the merged mapping gives every key of the
  environment variable the value the environment variable supplies, also when the
  command line sets the same key; a key that only the command line sets keeps the
  command line's value.
\<close>

theorem parse_config_overrides_env_wins:
  assumes "parse_overrides rt False (split_arg_string rt (env_string environ env_var)) [] =
             Inr env_overrides"
    and "parse_overrides rt True args [] = Inr cli_overrides"
  shows "\<exists>merged. parse_config_overrides rt environ args env_var = Inr merged \<and>
           (\<forall>k v. map_of env_overrides k = Some v \<longrightarrow> map_of merged k = Some v) \<and>
           (\<forall>k. map_of env_overrides k = None \<longrightarrow> map_of merged k = map_of cli_overrides k)"
proof -
  have "distinct (map fst env_overrides)"
    using assms(1) by (rule parse_overrides_distinct) simp
  then have m: "map_of (dict_merge cli_overrides env_overrides) =
                  map_of cli_overrides ++ map_of env_overrides"
    by (rule map_of_dict_merge)
  have "parse_config_overrides rt environ args env_var =
          Inr (dict_merge cli_overrides env_overrides)"
    by (simp add: parse_config_overrides_def assms)
  with m show ?thesis
    by (auto simp: map_add_def)
qed

theorem parse_config_overrides_env_wins_witness:
  "parse_overrides example_runtime False
      (split_arg_string example_runtime
         (env_string [CONFIG_OVERRIDES \<mapsto> ''--vars.name=env''] (Some CONFIG_OVERRIDES))) [] =
     Inr [(''vars.name'', JStr ''env'')] \<and>
   parse_overrides example_runtime True [''--vars.name=cli'', ''--vars.size'', ''3''] [] =
     Inr [(''vars.name'', JStr ''cli''), (''vars.size'', JStr ''3'')] \<and>
   (\<exists>merged.
      parse_config_overrides example_runtime [CONFIG_OVERRIDES \<mapsto> ''--vars.name=env'']
        [''--vars.name=cli'', ''--vars.size'', ''3''] (Some CONFIG_OVERRIDES) = Inr merged \<and>
      map_of merged ''vars.name'' = Some (JStr ''env'') \<and>
      map_of merged ''vars.size'' = Some (JStr ''3''))"
proof -
  have e: "parse_overrides example_runtime False
      (split_arg_string example_runtime
         (env_string [CONFIG_OVERRIDES \<mapsto> ''--vars.name=env''] (Some CONFIG_OVERRIDES))) [] =
     Inr [(''vars.name'', JStr ''env'')]"
    by code_simp
  have c: "parse_overrides example_runtime True [''--vars.name=cli'', ''--vars.size'', ''3''] [] =
     Inr [(''vars.name'', JStr ''cli''), (''vars.size'', JStr ''3'')]"
    by code_simp
  from parse_config_overrides_env_wins [OF e c] obtain merged where
    m: "parse_config_overrides example_runtime [CONFIG_OVERRIDES \<mapsto> ''--vars.name=env'']
          [''--vars.name=cli'', ''--vars.size'', ''3''] (Some CONFIG_OVERRIDES) = Inr merged"
    and w: "\<forall>k v. map_of [(''vars.name'', JStr ''env'')] k = Some v \<longrightarrow> map_of merged k = Some v"
    and k: "\<forall>k. map_of [(''vars.name'', JStr ''env'')] k = None \<longrightarrow>
              map_of merged k = map_of [(''vars.name'', JStr ''cli''), (''vars.size'', JStr ''3'')] k"
    by blast
  from w have "map_of merged ''vars.name'' = Some (JStr ''env'')"
    by simp
  moreover from k have "map_of merged ''vars.size'' = Some (JStr ''3'')"
    by simp
  ultimately show ?thesis
    using e c m by blast
qed

text \<open>
  Claim C2 as the specification states it fails: with \<^verbatim>\<open>--vars.name=cli\<close> on the
  command line and \<^verbatim>\<open>--vars.name=env\<close> in the environment variable, the merged
  mapping \<^verbatim>\<open>{**cli_overrides, **env_overrides}\<close> holds the value of the environment
  variable.
\<close>

theorem parse_config_overrides_cli_counterexample:
  "parse_overrides example_runtime True [''--vars.name=cli''] [] =
     Inr [(''vars.name'', JStr ''cli'')] \<and>
   parse_overrides example_runtime False
      (split_arg_string example_runtime
         (env_string [CONFIG_OVERRIDES \<mapsto> ''--vars.name=env''] (Some CONFIG_OVERRIDES))) [] =
     Inr [(''vars.name'', JStr ''env'')] \<and>
   parse_config_overrides example_runtime [CONFIG_OVERRIDES \<mapsto> ''--vars.name=env'']
      [''--vars.name=cli''] (Some CONFIG_OVERRIDES) =
     Inr [(''vars.name'', JStr ''env'')]"
  by code_simp

section \<open>Properties of schema validation\<close>












section \<open>Properties of the execution engine\<close>

lemma load_project_config_cwd:
  "cwd (case load_project_config rt i ov s of Inl (e, t) \<Rightarrow> t | Inr (c, t) \<Rightarrow> t) = cwd s"
  by (auto simp: load_project_config_def Let_def
      split: option.splits sum.splits if_splits prod.splits)

lemma run_steps_cwd:
  assumes "\<And>c t. cwd (final_state (run c t)) = cwd t"
  shows "cwd (final_state (run_steps run cs s)) = cwd s"
proof (induction cs arbitrary: s)
  case Nil
  show ?case by simp
next
  case (Cons c cs)
  show ?case
  proof (cases "run c s")
    case (Inl x)
    with assms [of c s] show ?thesis
      by (cases x) simp
  next
    case (Inr s1)
    with assms [of c s] Cons.IH [of s1] show ?thesis
      by simp
  qed
qed

lemma working_dir_cwd: "cwd (final_state (working_dir rt path body s)) = cwd s"
  by (simp add: working_dir_def Let_def split: sum.splits prod.splits)

lemma project_run_cwd:
  "cwd (final_state (project_run depth rt project_dir overrides force dry capture subcommand s)) = cwd s"
proof (induction depth arbitrary: subcommand s)
  case 0
  show ?case by simp
next
  case (Suc depth)
  let ?run = "\<lambda>cmd t. project_run depth rt project_dir overrides force dry capture cmd t"
  show ?case
  proof (cases "load_project_config rt True overrides s")
    case (Inl x)
    with load_project_config_cwd [of rt True overrides s] show ?thesis
      by (cases x) simp
  next
    case (Inr y)
    obtain config s1 where y: "y = (config, s1)"
      by (cases y)
    with Inr load_project_config_cwd [of rt True overrides s] have c1: "cwd s1 = cwd s"
      by simp
    have steps: "cwd (final_state (run_steps ?run steps s1)) = cwd s1" for steps
      by (rule run_steps_cwd) (rule Suc.IH)
    have wd: "cwd (final_state (working_dir rt project_dir body s1)) = cwd s1" for body
      by (rule working_dir_cwd)
    show ?thesis
      using Inr y c1 steps wd
      by (simp add: Let_def split: sum.splits option.splits)
  qed
qed

lemma example_runtime_fields:
  "md5 example_runtime = (\<lambda>b. b)"
  "json_dumps example_runtime = example_dumps"
  "split_command example_runtime = (\<lambda>s. Some [s])"
  "sys_executable example_runtime = ''python''"
  "resolve example_runtime = (\<lambda>cwd path. cwd @ ''/'' @ path)"
  "subprocess_run example_runtime = (\<lambda>cwd argv d. Some (if argv = [''false''] then 1 else 0, d))"
  "substitute_project_variables example_runtime = (\<lambda>config overrides. Inr config)"
  by (simp_all add: example_runtime_def)

lemma run_steps_append:
  "run_steps run (xs @ ys) s =
     (case run_steps run xs s of Inl x \<Rightarrow> Inl x | Inr t \<Rightarrow> run_steps run ys t)"
  by (induction xs arbitrary: s) (auto split: sum.splits)

lemma project_run_workflow:
  assumes "load_project_config rt True overrides s = Inr (config, s0)"
    and "map_of (workflows_of config) W = Some steps"
  shows "project_run (Suc depth) rt pd overrides force dry capture W s =
           run_steps (\<lambda>cmd t. project_run depth rt pd overrides force dry capture cmd t) steps s0"
proof -
  from assms(2) have "(W, steps) \<in> set (workflows_of config)"
    by (rule map_of_SomeD)
  then have "W \<in> set (map fst (workflows_of config))" and "workflows_of config \<noteq> []"
    by force+
  then have "validate_subcommand (map fst (commands_by_name (command_dicts config)))
               (map fst (workflows_of config)) W = Inr ()"
    by (simp add: validate_subcommand_def)
  with assms show ?thesis
    by (simp add: Let_def)
qed

text \<open>
  Claim C4.  For a workflow of the loaded manifest, \<open>project_run\<close> runs the steps one
  after the other in the order declared, each from the state the one before left; when
  the steps before a step have returned and that step fails, the run of the workflow
  fails with the same error in the state that step left, so that no later step has run;
  when that step returns, the run goes on with the steps after it.  For a workflow
  \<^verbatim>\<open>[A, B]\<close> in which \<^verbatim>\<open>A\<close> fails, \<^verbatim>\<open>B\<close> is not executed.
\<close>

theorem workflow_steps_sequential:
  assumes "load_project_config rt True overrides s = Inr (config, s0)"
    and "map_of (workflows_of config) W = Some (pre @ A # post)"
  shows "project_run (Suc depth) rt pd overrides force dry capture W s =
           run_steps (\<lambda>cmd t. project_run depth rt pd overrides force dry capture cmd t)
             (pre @ A # post) s0 \<and>
         (run_steps (\<lambda>cmd t. project_run depth rt pd overrides force dry capture cmd t) pre s0
            = Inr s1 \<longrightarrow>
          project_run depth rt pd overrides force dry capture A s1 = Inl (e, s2) \<longrightarrow>
          project_run (Suc depth) rt pd overrides force dry capture W s = Inl (e, s2)) \<and>
         (run_steps (\<lambda>cmd t. project_run depth rt pd overrides force dry capture cmd t) pre s0
            = Inr s1 \<longrightarrow>
          project_run depth rt pd overrides force dry capture A s1 = Inr s3 \<longrightarrow>
          project_run (Suc depth) rt pd overrides force dry capture W s =
            run_steps (\<lambda>cmd t. project_run depth rt pd overrides force dry capture cmd t)
              post s3)"
proof -
  let ?run = "\<lambda>cmd t. project_run depth rt pd overrides force dry capture cmd t"
  have w: "project_run (Suc depth) rt pd overrides force dry capture W s =
             run_steps ?run (pre @ A # post) s0"
    using assms by (rule project_run_workflow)
  have f: "run_steps ?run (pre @ A # post) s0 = Inl (e, s2)"
    if "run_steps ?run pre s0 = Inr s1" and "?run A s1 = Inl (e, s2)"
    using that by (simp add: run_steps_append)
  have g: "run_steps ?run (pre @ A # post) s0 = run_steps ?run post s3"
    if "run_steps ?run pre s0 = Inr s1" and "?run A s1 = Inr s3"
    using that by (simp add: run_steps_append)
  from w f g show ?thesis
    by simp
qed

lemma example_workflow_facts:
  "validate ProjectConfigSchema example_workflow = Inr []"
  "validate_project_commands (items example_workflow) = Inr []"
  "directories_of (items example_workflow) = Inr []"
  "commands_by_name (command_dicts (items example_workflow)) =
     [(''fail'', JDict [(''name'', JStr ''fail''), (''script'', JList [JStr ''false''])]),
      (''build'', JDict [(''name'', JStr ''build''), (''script'', JList [JStr ''true''])])]"
  "workflows_of (items example_workflow) =
     [(''all'', [''fail'', ''build'']), (''rebuild'', [''build'', ''fail''])]"
  "as_command (JDict [(''name'', JStr ''fail''), (''script'', JList [JStr ''false''])]) =
     \<lparr>name = ''fail'', help_text = None, script = Some [''false''], deps = [], outputs = [],
      outputs_no_cache = [], no_skip = False\<rparr>"
  "as_command (JDict [(''name'', JStr ''build''), (''script'', JList [JStr ''true''])]) =
     \<lparr>name = ''build'', help_text = None, script = Some [''true''], deps = [], outputs = [],
      outputs_no_cache = [], no_skip = False\<rparr>"
  by code_simp+

lemma example_workflow_load:
  "load_project_config example_runtime True [] (example_state example_workflow) =
     Inr (items example_workflow, example_state example_workflow)"
  "load_project_config example_runtime True [] example_after_build =
     Inr (items example_workflow, example_after_build)"
  by (simp_all add: load_project_config_def example_state_def example_after_build_def
      example_workflow_facts example_runtime_fields)

lemmas example_run_defs =
  validate_subcommand_def working_dir_def run_in_project_def check_rerun_def run_command_def
  rewrite_alias_def update_lockfile_def get_lock_entry_def example_runtime_fields Let_def

lemmas example_workflow_load_unfolded =
  example_workflow_load [unfolded example_state_def example_after_build_def]

lemma example_workflow_fail:
  "project_run (Suc 0) example_runtime ''.'' [] False False False ''fail''
     (example_state example_workflow) = Inl (SystemExit 1, example_after_fail)"
  by (simp add: example_state_def example_after_fail_def example_workflow_load_unfolded
      example_workflow_facts example_run_defs)

lemma example_workflow_build:
  "project_run (Suc 0) example_runtime ''.'' [] False False False ''build''
     (example_state example_workflow) = Inr example_after_build"
  by (simp add: example_state_def example_after_build_def example_built_entry_def
      example_workflow_load_unfolded example_workflow_facts example_run_defs)

lemma example_workflow_build_fail:
  "project_run (Suc 0) example_runtime ''.'' [] False False False ''fail''
     example_after_build = Inl (SystemExit 1, example_after_rebuild)"
  by (simp add: example_after_build_def example_after_rebuild_def
      example_workflow_load_unfolded example_workflow_facts example_run_defs)

theorem workflow_steps_sequential_witness:
  "load_project_config example_runtime True [] (example_state example_workflow) =
     Inr (items example_workflow, example_state example_workflow) \<and>
   map_of (workflows_of (items example_workflow)) ''all'' = Some ([] @ ''fail'' # [''build'']) \<and>
   map_of (workflows_of (items example_workflow)) ''rebuild'' = Some ([] @ ''build'' # [''fail'']) \<and>
   run_steps (\<lambda>cmd t. project_run (Suc 0) example_runtime ''.'' [] False False False cmd t) []
     (example_state example_workflow) = Inr (example_state example_workflow) \<and>
   project_run (Suc 0) example_runtime ''.'' [] False False False ''fail''
     (example_state example_workflow) = Inl (SystemExit 1, example_after_fail) \<and>
   project_run (Suc 0) example_runtime ''.'' [] False False False ''build''
     (example_state example_workflow) = Inr example_after_build \<and>
   project_run (Suc (Suc 0)) example_runtime ''.'' [] False False False ''all''
     (example_state example_workflow) = Inl (SystemExit 1, example_after_fail) \<and>
   executed example_after_fail = [[''false'']] \<and>
   project_run (Suc (Suc 0)) example_runtime ''.'' [] False False False ''rebuild''
     (example_state example_workflow) = Inl (SystemExit 1, example_after_rebuild) \<and>
   executed example_after_rebuild = [[''true''], [''false'']]"
proof -
  let ?s = "example_state example_workflow"
  let ?run = "\<lambda>cmd t. project_run (Suc 0) example_runtime ''.'' [] False False False cmd t"
  have l: "load_project_config example_runtime True [] ?s = Inr (items example_workflow, ?s)"
    by (rule example_workflow_load)
  have a: "map_of (workflows_of (items example_workflow)) ''all'' = Some ([] @ ''fail'' # [''build''])"
    by (simp add: example_workflow_facts)
  have r: "map_of (workflows_of (items example_workflow)) ''rebuild'' =
      Some ([] @ ''build'' # [''fail''])"
    by (simp add: example_workflow_facts)
  have n: "run_steps ?run [] ?s = Inr ?s"
    by simp
  note f = example_workflow_fail
  note b = example_workflow_build
  from workflow_steps_sequential [OF l a, of "Suc 0" "''.''" False False False ?s "SystemExit 1"
      example_after_fail] n f
  have w1: "project_run (Suc (Suc 0)) example_runtime ''.'' [] False False False ''all'' ?s =
      Inl (SystemExit 1, example_after_fail)"
    by blast
  from workflow_steps_sequential [OF l r, of "Suc 0" "''.''" False False False ?s _ _
      example_after_build] n b
  have "project_run (Suc (Suc 0)) example_runtime ''.'' [] False False False ''rebuild'' ?s =
      run_steps ?run [''fail''] example_after_build"
    by blast
  then have w2: "project_run (Suc (Suc 0)) example_runtime ''.'' [] False False False ''rebuild'' ?s =
      Inl (SystemExit 1, example_after_rebuild)"
    by (simp add: example_workflow_build_fail del: project_run.simps)
  have x: "executed example_after_fail = [[''false'']]"
    "executed example_after_rebuild = [[''true''], [''false'']]"
    by (simp_all add: example_after_fail_def example_after_rebuild_def)
  from l a r n f b w1 w2 x show ?thesis
    by (intro conjI)
qed

text \<open>
  Claim C10.  Whatever the block inside \<open>working_dir\<close> does (return, raise, change the
  directory itself, enter \<open>working_dir\<close> again), the working directory after
  \<open>working_dir\<close> is the one in effect at entry; so it is after every \<open>project_run\<close>,
  however it ends, and every step of a workflow starts in the working directory the
  workflow started in.
\<close>

theorem working_dir_restores_cwd:
  "cwd (final_state (working_dir rt path body s)) = cwd s \<and>
   cwd (final_state (working_dir rt path (\<lambda>current. working_dir rt path' body') s)) = cwd s \<and>
   cwd (final_state (project_run depth rt project_dir overrides force dry capture subcommand s))
     = cwd s \<and>
   (run_steps (\<lambda>cmd t. project_run depth rt project_dir overrides force dry capture cmd t) pre s
      = Inr s1 \<longrightarrow> cwd s1 = cwd s)"
proof -
  let ?run = "\<lambda>cmd t. project_run depth rt project_dir overrides force dry capture cmd t"
  have "cwd (final_state (run_steps ?run pre s)) = cwd s"
    by (rule run_steps_cwd) (rule project_run_cwd)
  then have "run_steps ?run pre s = Inr s1 \<longrightarrow> cwd s1 = cwd s"
    by auto
  then show ?thesis
    by (simp add: working_dir_cwd project_run_cwd)
qed

theorem working_dir_restores_cwd_witness:
  "run_steps (\<lambda>cmd t. project_run (Suc 0) example_runtime ''.'' [] False False False cmd t)
     [''build''] (example_state example_workflow) = Inr example_after_build \<and>
   cwd example_after_build = cwd (example_state example_workflow) \<and>
   cwd (final_state (working_dir example_runtime ''project''
          (\<lambda>current t. Inl (SystemExit 1, t\<lparr>cwd := ''/tmp''\<rparr>))
          (example_state example_workflow))) = ''/home'' \<and>
   cwd (final_state (project_run (Suc 0) example_runtime ''.'' [] False False False ''fail''
          (example_state example_workflow))) = ''/home''"
proof -
  let ?s = "example_state example_workflow"
  let ?run = "\<lambda>cmd t. project_run (Suc 0) example_runtime ''.'' [] False False False cmd t"
  let ?body = "\<lambda>(current::string) t. Inl (SystemExit 1, t\<lparr>cwd := ''/tmp''\<rparr>) :: (error \<times> state) + state"
  have r: "run_steps ?run [''build''] ?s = Inr example_after_build"
    by (simp add: example_workflow_build del: project_run.simps)
  have c: "cwd ?s = ''/home''"
    by (simp add: example_state_def)
  note t = working_dir_restores_cwd [of example_runtime "''project''" ?body ?s "''project''" ?body
      "Suc 0" "''.''" "[]" False False False "''fail''" "[''build'']" example_after_build]
  from t r have "cwd example_after_build = cwd ?s"
    by blast
  moreover from t c have "cwd (final_state (working_dir example_runtime ''project'' ?body ?s)) = ''/home''"
    by simp
  moreover from t c have "cwd (final_state (project_run (Suc 0) example_runtime ''.'' [] False False
      False ''fail'' ?s)) = ''/home''"
    by simp
  ultimately show ?thesis
    using r by (intro conjI)
qed

section \<open>Manifests with semantic errors\<close>

lemma example_duplicate_facts:
  "validate ProjectConfigSchema example_duplicate = Inr []"
  "validate_project_commands (items example_duplicate) = Inr [DuplicateCommands {''build''}]"
  "directories_of (items example_duplicate) = Inr []"
  "commands_by_name (command_dicts (items example_duplicate)) =
     [(''build'', JDict [(''name'', JStr ''build''), (''script'', JList [JStr ''second''])])]"
  "workflows_of (items example_duplicate) = []"
  "as_command (JDict [(''name'', JStr ''build''), (''script'', JList [JStr ''second''])]) =
     \<lparr>name = ''build'', help_text = None, script = Some [''second''], deps = [], outputs = [],
      outputs_no_cache = [], no_skip = False\<rparr>"
  by code_simp+

lemma example_unresolved_facts:
  "validate ProjectConfigSchema example_unresolved = Inr []"
  "validate_project_commands (items example_unresolved) = Inr [UnknownStep ''all'' ''missing'']"
  "directories_of (items example_unresolved) = Inr []"
  "commands_by_name (command_dicts (items example_unresolved)) =
     [(''build'', JDict [(''name'', JStr ''build''), (''script'', JList [JStr ''true''])])]"
  "workflows_of (items example_unresolved) = [(''all'', [''build'', ''missing''])]"
  "as_command (JDict [(''name'', JStr ''build''), (''script'', JList [JStr ''true''])]) =
     \<lparr>name = ''build'', help_text = None, script = Some [''true''], deps = [], outputs = [],
      outputs_no_cache = [], no_skip = False\<rparr>"
  by code_simp+

lemma example_clash_facts:
  "validate ProjectConfigSchema example_clash = Inr []"
  "validate_project_commands (items example_clash) = Inr [WorkflowNameClash ''build'']"
  "directories_of (items example_clash) = Inr []"
  "commands_by_name (command_dicts (items example_clash)) =
     [(''build'', JDict [(''name'', JStr ''build''), (''script'', JList [JStr ''first''])]),
      (''test'', JDict [(''name'', JStr ''test''), (''script'', JList [JStr ''second''])])]"
  "workflows_of (items example_clash) = [(''build'', [''test''])]"
  "as_command (JDict [(''name'', JStr ''test''), (''script'', JList [JStr ''second''])]) =
     \<lparr>name = ''test'', help_text = None, script = Some [''second''], deps = [], outputs = [],
      outputs_no_cache = [], no_skip = False\<rparr>"
  by code_simp+

lemma example_semantic_load:
  "load_project_config example_runtime True []
     \<lparr>on_disk = \<lparr>files = f, manifest = Some example_duplicate, lockfile = l\<rparr>,
      cwd = c, executed = x, console = k\<rparr> =
   Inr (items example_duplicate,
     \<lparr>on_disk = \<lparr>files = f, manifest = Some example_duplicate, lockfile = l\<rparr>,
      cwd = c, executed = x, console = k @ [DuplicateCommands {''build''}]\<rparr>)"
  "load_project_config example_runtime True []
     \<lparr>on_disk = \<lparr>files = f, manifest = Some example_unresolved, lockfile = l\<rparr>,
      cwd = c, executed = x, console = k\<rparr> =
   Inr (items example_unresolved,
     \<lparr>on_disk = \<lparr>files = f, manifest = Some example_unresolved, lockfile = l\<rparr>,
      cwd = c, executed = x, console = k @ [UnknownStep ''all'' ''missing'']\<rparr>)"
  "load_project_config example_runtime True []
     \<lparr>on_disk = \<lparr>files = f, manifest = Some example_clash, lockfile = l\<rparr>,
      cwd = c, executed = x, console = k\<rparr> =
   Inr (items example_clash,
     \<lparr>on_disk = \<lparr>files = f, manifest = Some example_clash, lockfile = l\<rparr>,
      cwd = c, executed = x, console = k @ [WorkflowNameClash ''build'']\<rparr>)"
  by (simp_all add: load_project_config_def example_duplicate_facts example_unresolved_facts
      example_clash_facts example_runtime_fields)

text \<open>
  Claim C9 does not hold of the code.  \<open>validate_project_commands\<close> finds each of the
  three semantic errors and only prints it; \<open>load_project_config\<close> returns the manifest
  all the same, and scripts run.  With two commands named \<^verbatim>\<open>build\<close>, running
  \<^verbatim>\<open>build\<close> runs the script of the second; with a workflow that names a command
  that does not exist, the steps before it run before the run exits at that step; with
  a workflow named like a command, the workflow runs.
\<close>

theorem semantic_errors_do_not_abort:
  "validate_project_commands (items example_duplicate) = Inr [DuplicateCommands {''build''}] \<and>
   project_run (Suc 0) example_runtime ''.'' [] False False False ''build''
     (example_state example_duplicate) = Inr example_after_duplicate \<and>
   executed example_after_duplicate = [[''second'']] \<and>
   validate_project_commands (items example_unresolved) = Inr [UnknownStep ''all'' ''missing''] \<and>
   project_run (Suc (Suc 0)) example_runtime ''.'' [] False False False ''all''
     (example_state example_unresolved) = Inl (SystemExit 1, example_after_unresolved) \<and>
   executed example_after_unresolved = [[''true'']] \<and>
   validate_project_commands (items example_clash) = Inr [WorkflowNameClash ''build''] \<and>
   project_run (Suc (Suc 0)) example_runtime ''.'' [] False False False ''build''
     (example_state example_clash) = Inr example_after_clash \<and>
   executed example_after_clash = [[''second'']]"
proof -
  have d: "project_run (Suc 0) example_runtime ''.'' [] False False False ''build''
      (example_state example_duplicate) = Inr example_after_duplicate"
    by (simp add: example_state_def example_after_duplicate_def example_semantic_load
        example_duplicate_facts example_run_defs)
  have u: "project_run (Suc (Suc 0)) example_runtime ''.'' [] False False False ''all''
      (example_state example_unresolved) = Inl (SystemExit 1, example_after_unresolved)"
    by (simp add: example_state_def example_after_unresolved_def example_built_entry_def
        example_semantic_load example_unresolved_facts example_run_defs)
  have c: "project_run (Suc (Suc 0)) example_runtime ''.'' [] False False False ''build''
      (example_state example_clash) = Inr example_after_clash"
    by (simp add: example_state_def example_after_clash_def example_semantic_load
        example_clash_facts example_run_defs)
  have x: "executed example_after_duplicate = [[''second'']]"
    "executed example_after_unresolved = [[''true'']]"
    "executed example_after_clash = [[''second'']]"
    by (simp_all add: example_after_duplicate_def example_after_unresolved_def
        example_after_clash_def)
  from d u c x show ?thesis
    by (simp only: example_duplicate_facts example_unresolved_facts example_clash_facts)
qed

end
